theory Spec2Isabelle
  imports Main
begin

section \<open>The custom select of custom-select.js\<close>

text \<open>
  The plugin replaces a native \<^verbatim>\<open><select>\<close> by a wrapper holding a trigger button and a list
  of option buttons, and keeps the native element in step with the list. Its state lives in
  the closure of \<^verbatim>\<open>CustomSelect\<close> (\<^verbatim>\<open>disabled\<close>, \<^verbatim>\<open>expanded\<close>, \<^verbatim>\<open>listOfOptions\<close>) and in the
  DOM nodes it owns (\<^verbatim>\<open>selectElement\<close>, \<^verbatim>\<open>trigger\<close>, \<^verbatim>\<open>wrapper\<close>, \<^verbatim>\<open>list\<close>). The model is one
  record of that state, passed to and returned by every function of the source.

  jQuery and the DOM are not part of the source. They are modelled by what the calls of the
  source do to the nodes the plugin owns:
  \<^item> a class attribute is a set of class names. A class name is the key of the \<^verbatim>\<open>defaults\<close>
    table it is read from: the configured names are taken to be pairwise distinct single
    class names, as the defaults are;
  \<^item> every \<^verbatim>\<open><option>\<close> has a value attribute, which jQuery's \<^verbatim>\<open>.data('value')\<close> reads back
    from \<^verbatim>\<open>data-value\<close> as the same string and which the selector \<^verbatim>\<open>[value=...]\<close> compares
    by equality; texts are plain text;
  \<^item> \<^verbatim>\<open>.attr('selected', b)\<close> writes the \<^verbatim>\<open>selected\<close> mark of an option and
    \<^verbatim>\<open>.attr('selected') === 'selected'\<close> reads it; \<^verbatim>\<open>.val(v)\<close> on the select makes \<open>v\<close> its
    current value when an option carries \<open>v\<close> and leaves it without a value otherwise;
  \<^item> a jQuery set of list items (or of their buttons) is the list of their positions in the
    list, in document order;
  \<^item> where the wrapper stands in the document is not part of the state.

  The names are those of the source, but for the list node: \<^verbatim>\<open>list\<close> is \<open>list_ul\<close> here.
\<close>

subsection \<open>Nodes\<close>

datatype css_class =
  replacedClass | wrapperClass | triggerClass | selectedClass | disabledClass
  | focusClass | optionsClass | optionClass | expandedClass

record option_el =
  opt_value :: string
  opt_text :: string
  opt_selected :: bool

record select_el =
  sel_disabled :: bool
  sel_classes :: "css_class set"
  sel_children :: "option_el list"
  sel_val :: "string option"

text \<open>A list item \<^verbatim>\<open><li><button class=option data-value=...>text</button></li>\<close>.\<close>

record li_el =
  li_classes :: "css_class set"
  button_data_value :: string
  button_text :: string

record custom_select =
  selectElement :: select_el
  disabled :: bool
  trigger :: string
  wrapper :: "css_class set"
  list_ul :: "li_el list"
  listOfOptions :: "li_el list"
  expanded :: bool

subsection \<open>Events\<close>

datatype event_type = keyup | blur | focus | disable | click

datatype node = option_button nat | list_item nat | options_list | other_node

record jq_event =
  etype :: event_type
  keyCode :: int
  target :: node

text \<open>
  What a handler leaves behind for jQuery's dispatcher: whether it returned \<^verbatim>\<open>false\<close> and
  whether it called \<^verbatim>\<open>e.preventDefault()\<close>. jQuery prevents the default action of the event
  in both cases.
\<close>

record outcome =
  returned_false :: bool
  preventDefault_called :: bool

definition default_suppressed :: "outcome \<Rightarrow> bool" where
  "default_suppressed out = (returned_false out \<or> preventDefault_called out)"

subsection \<open>jQuery on the list\<close>

definition map_items :: "(nat \<Rightarrow> li_el \<Rightarrow> li_el) \<Rightarrow> li_el list \<Rightarrow> li_el list" where
  "map_items f lis = map (\<lambda>(i, li). f i li) (enumerate 0 lis)"

definition addClass_li :: "css_class \<Rightarrow> nat list \<Rightarrow> li_el list \<Rightarrow> li_el list" where
  "addClass_li c sel lis =
     map_items (\<lambda>i li. if i \<in> set sel then li\<lparr>li_classes := insert c (li_classes li)\<rparr> else li) lis"

definition removeClass_li :: "css_class \<Rightarrow> nat list \<Rightarrow> li_el list \<Rightarrow> li_el list" where
  "removeClass_li c sel lis =
     map_items (\<lambda>i li. if i \<in> set sel then li\<lparr>li_classes := li_classes li - {c}\<rparr> else li) lis"

text \<open>\<^verbatim>\<open>list.find('li')\<close> and \<^verbatim>\<open>list.find(optionEl).parent()\<close>: every item of the list.\<close>

definition find_li :: "li_el list \<Rightarrow> nat list" where
  "find_li lis = [0..<length lis]"

text \<open>
  \<^verbatim>\<open>list.find(selectedEl)\<close>: the items carrying the selected class. The buttons inside them,
  \<^verbatim>\<open>list.find(selectedEl).find(optionEl)\<close>, stand at the same positions.
\<close>

definition find_selectedEl :: "li_el list \<Rightarrow> nat list" where
  "find_selectedEl lis = filter (\<lambda>i. selectedClass \<in> li_classes (lis ! i)) [0..<length lis]"

text \<open>\<^verbatim>\<open>.index()\<close>: the position of the first node of the set among its siblings, -1 for
  the empty set.\<close>

definition jq_index :: "nat list \<Rightarrow> int" where
  "jq_index sel = (case sel of [] \<Rightarrow> - 1 | i # _ \<Rightarrow> int i)"

text \<open>\<^verbatim>\<open>.eq(i)\<close>: the node at position \<open>i\<close> of the set, counted from the end when \<open>i\<close> is
  negative; the empty set when there is none.\<close>

definition jq_eq :: "int \<Rightarrow> nat list \<Rightarrow> nat list" where
  "jq_eq i sel =
     (if 0 \<le> i then (if i < int (length sel) then [sel ! nat i] else [])
      else (if - i \<le> int (length sel) then [sel ! nat (int (length sel) + i)] else []))"

definition jq_prev :: "nat list \<Rightarrow> nat list" where
  "jq_prev sel = concat (map (\<lambda>i. if 0 < i then [i - 1] else []) sel)"

definition jq_next :: "li_el list \<Rightarrow> nat list \<Rightarrow> nat list" where
  "jq_next lis sel = concat (map (\<lambda>i. if Suc i < length lis then [Suc i] else []) sel)"

text \<open>\<^verbatim>\<open>.text()\<close>: the texts of the nodes of the set, concatenated.\<close>

definition jq_text :: "li_el list \<Rightarrow> nat list \<Rightarrow> string" where
  "jq_text lis sel = concat (map (\<lambda>i. button_text (lis ! i)) sel)"

text \<open>\<^verbatim>\<open>.data('value')\<close>: the data value of the first node of the set, \<^verbatim>\<open>undefined\<close>
  (\<open>None\<close>) for the empty set.\<close>

definition jq_data_value :: "li_el list \<Rightarrow> nat list \<Rightarrow> string option" where
  "jq_data_value lis sel = (case sel of [] \<Rightarrow> None | i # _ \<Rightarrow> Some (button_data_value (lis ! i)))"

text \<open>\<^verbatim>\<open>$(e.target)\<close> as a set of buttons: a target that is no button of the list is no node
  of it.\<close>

definition target_buttons :: "li_el list \<Rightarrow> node \<Rightarrow> nat list" where
  "target_buttons lis t = (case t of option_button k \<Rightarrow> (if k < length lis then [k] else []) | _ \<Rightarrow> [])"

definition is_button :: "node \<Rightarrow> bool" where
  "is_button t = (case t of option_button k \<Rightarrow> True | _ \<Rightarrow> False)"

subsection \<open>jQuery on the native select\<close>

text \<open>\<^verbatim>\<open>selectElement.find('option').attr('selected', false)\<close>\<close>

definition attr_selected_false :: "select_el \<Rightarrow> select_el" where
  "attr_selected_false el = el\<lparr>sel_children := map (\<lambda>opt. opt\<lparr>opt_selected := False\<rparr>) (sel_children el)\<rparr>"

text \<open>
  \<^verbatim>\<open>selectElement.find('[value=' + value + ']').attr('selected', true)\<close>. The string
  concatenation turns \<^verbatim>\<open>undefined\<close> into the text \<^verbatim>\<open>undefined\<close>.
\<close>

definition selector_text :: "string option \<Rightarrow> string" where
  "selector_text v = (case v of None \<Rightarrow> ''undefined'' | Some x \<Rightarrow> x)"

definition attr_selected_true :: "string option \<Rightarrow> select_el \<Rightarrow> select_el" where
  "attr_selected_true v el =
     el\<lparr>sel_children :=
          map (\<lambda>opt. if opt_value opt = selector_text v then opt\<lparr>opt_selected := True\<rparr> else opt)
            (sel_children el)\<rparr>"

text \<open>\<^verbatim>\<open>selectElement.val(value)\<close>; jQuery sets \<^verbatim>\<open>undefined\<close> as the empty string.\<close>

definition val_text :: "string option \<Rightarrow> string" where
  "val_text v = (case v of None \<Rightarrow> [] | Some x \<Rightarrow> x)"

definition set_val :: "string option \<Rightarrow> select_el \<Rightarrow> select_el" where
  "set_val v el =
     el\<lparr>sel_val := (if val_text v \<in> set (map opt_value (sel_children el)) then Some (val_text v) else None)\<rparr>"

subsection \<open>The functions of the plugin\<close>

text \<open>
  A function with several statements is given by its trace: the states after each of its
  statements, in the order of the source. The function returns the last state of the trace
  (the state it was called in when it runs no statement).
\<close>

definition updateTriggerText :: "string \<Rightarrow> custom_select \<Rightarrow> custom_select" where
  "updateTriggerText v s = s\<lparr>trigger := v\<rparr>"

definition changeSelectItem_trace :: "nat list \<Rightarrow> custom_select \<Rightarrow> custom_select list" where
  "changeSelectItem_trace selection s =
     (let v = jq_data_value (list_ul s) selection;
          s1 = s\<lparr>selectElement := attr_selected_false (selectElement s)\<rparr>;
          s2 = s1\<lparr>selectElement := attr_selected_true v (selectElement s1)\<rparr>;
          s3 = s2\<lparr>selectElement := set_val v (selectElement s2)\<rparr>
      in [s1, s2, s3])"

definition changeSelectItem :: "nat list \<Rightarrow> custom_select \<Rightarrow> custom_select" where
  "changeSelectItem selection s = last (s # changeSelectItem_trace selection s)"

definition changeSelectElement_trace :: "nat list \<Rightarrow> custom_select \<Rightarrow> custom_select list" where
  "changeSelectElement_trace selection s =
     (let currentSelection = selection;
          s1 = s\<lparr>list_ul := removeClass_li selectedClass (find_li (list_ul s)) (list_ul s)\<rparr>;
          s2 = s1\<lparr>list_ul := addClass_li selectedClass currentSelection (list_ul s1)\<rparr>;
          s3 = updateTriggerText (jq_text (list_ul s2) currentSelection) s2
      in [s1, s2, s3] @ changeSelectItem_trace selection s3)"

definition changeSelectElement :: "nat list \<Rightarrow> custom_select \<Rightarrow> custom_select" where
  "changeSelectElement selection s = last (s # changeSelectElement_trace selection s)"

definition openCustomSelect :: "custom_select \<Rightarrow> custom_select" where
  "openCustomSelect s = (s\<lparr>wrapper := insert expandedClass (wrapper s)\<rparr>)\<lparr>expanded := True\<rparr>"

definition closeCustomSelect :: "custom_select \<Rightarrow> custom_select" where
  "closeCustomSelect s = (s\<lparr>wrapper := wrapper s - {expandedClass}\<rparr>)\<lparr>expanded := False\<rparr>"

text \<open>\<^verbatim>\<open>toggleCustomSelect\<close> returns \<^verbatim>\<open>false\<close> when disabled and nothing otherwise; it takes no
  event and never calls \<^verbatim>\<open>preventDefault\<close>.\<close>

definition toggleCustomSelect :: "custom_select \<Rightarrow> custom_select \<times> outcome" where
  "toggleCustomSelect s =
     (if disabled s then (s, \<lparr>returned_false = True, preventDefault_called = False\<rparr>)
      else ((if expanded s then closeCustomSelect s else openCustomSelect s),
            \<lparr>returned_false = False, preventDefault_called = False\<rparr>))"

definition handleCustomListClick_trace :: "jq_event \<Rightarrow> custom_select \<Rightarrow> custom_select list" where
  "handleCustomListClick_trace e s =
     (if disabled s then []
      else if is_button (target e) then
        (let s1 = fst (toggleCustomSelect s)
         in s1 # changeSelectElement_trace (target_buttons (list_ul s) (target e)) s1)
      else [])"

definition handleCustomListClick :: "jq_event \<Rightarrow> custom_select \<Rightarrow> custom_select \<times> outcome" where
  "handleCustomListClick e s =
     (if disabled s then (s, \<lparr>returned_false = True, preventDefault_called = False\<rparr>)
      else (last (s # handleCustomListClick_trace e s),
            \<lparr>returned_false = False, preventDefault_called = True\<rparr>))"

definition handleKeyboardInput_trace :: "jq_event \<Rightarrow> custom_select \<Rightarrow> custom_select list" where
  "handleKeyboardInput_trace e s =
     (let selection = jq_index (find_selectedEl (list_ul s));
          nextSelection =
            (if keyCode e = 38 \<or> keyCode e = 37
               then Some (jq_prev (jq_eq selection (find_li (list_ul s))))
             else if keyCode e = 40 \<or> keyCode e = 39
               then Some (jq_next (list_ul s) (jq_eq selection (find_li (list_ul s))))
             else None)
      in case nextSelection of
           None \<Rightarrow> []
         | Some nxt \<Rightarrow>
             if length nxt > 0 then
               (let s1 = s\<lparr>list_ul := addClass_li selectedClass nxt (list_ul s)\<rparr>;
                    s2 = updateTriggerText (jq_text (list_ul s1) nxt) s1;
                    s3 = s2\<lparr>list_ul :=
                           removeClass_li selectedClass (jq_eq selection (find_li (list_ul s2))) (list_ul s2)\<rparr>
                in [s1, s2, s3] @ changeSelectItem_trace (find_selectedEl (list_ul s3)) s3)
             else [])"

definition handleKeyboardInput :: "jq_event \<Rightarrow> custom_select \<Rightarrow> custom_select" where
  "handleKeyboardInput e s = last (s # handleKeyboardInput_trace e s)"

definition handleKeyboardSelect :: "jq_event \<Rightarrow> custom_select \<Rightarrow> custom_select \<times> outcome" where
  "handleKeyboardSelect e s =
     (if disabled s then (s, \<lparr>returned_false = True, preventDefault_called = False\<rparr>)
      else
        ((case etype e of
            keyup \<Rightarrow> handleKeyboardInput e s
          | blur \<Rightarrow> s\<lparr>wrapper := wrapper s - {focusClass}\<rparr>
          | focus \<Rightarrow> s\<lparr>wrapper := insert focusClass (wrapper s)\<rparr>
          | disable \<Rightarrow> s\<lparr>disabled := True\<rparr>
          | _ \<Rightarrow> s),
         \<lparr>returned_false = False, preventDefault_called = True\<rparr>))"

subsection \<open>Construction\<close>

text \<open>
  The callback of \<^verbatim>\<open>$.each(selectOptions, ...)\<close>, run over the options in order.
  \<^verbatim>\<open>list.append(listOfOptions)\<close> moves the items the list already holds, so after it the
  children of the list are the items of the array, in the array's order.
\<close>

fun createCustomSelect_each :: "option_el list \<Rightarrow> custom_select \<Rightarrow> custom_select" where
  "createCustomSelect_each [] s = s"
| "createCustomSelect_each (item # rest) s =
     (let listItem = \<lparr>li_classes = {}, button_data_value = opt_value item, button_text = opt_text item\<rparr>;
          s1 = (if opt_selected item then updateTriggerText (opt_text item) s else s);
          listItem1 = (if opt_selected item
                       then listItem\<lparr>li_classes := insert selectedClass (li_classes listItem)\<rparr>
                       else listItem);
          s2 = s1\<lparr>listOfOptions := listOfOptions s1 @ [listItem1]\<rparr>;
          s3 = s2\<lparr>list_ul := listOfOptions s2\<rparr>
      in createCustomSelect_each rest s3)"

definition createCustomSelect :: "option_el list \<Rightarrow> custom_select \<Rightarrow> custom_select" where
  "createCustomSelect selectOptions s =
     createCustomSelect_each selectOptions
       (if disabled s then s\<lparr>wrapper := insert disabledClass (wrapper s)\<rparr> else s)"

text \<open>The constructor: the variable declarations, then \<^verbatim>\<open>init()\<close>.\<close>

definition CustomSelect :: "select_el \<Rightarrow> custom_select" where
  "CustomSelect element =
     (let s0 = \<lparr>selectElement = element,
                disabled = sel_disabled element,
                trigger = [],
                wrapper = {wrapperClass},
                list_ul = [],
                listOfOptions = [],
                expanded = False\<rparr>;
          selectOptions = sel_children element;
          s1 = s0\<lparr>selectElement := (selectElement s0)\<lparr>sel_classes := insert replacedClass (sel_classes (selectElement s0))\<rparr>\<rparr>
      in createCustomSelect selectOptions s1)"

subsection \<open>Dispatch\<close>

text \<open>
  \<^verbatim>\<open>bindEventHandler\<close> binds \<^verbatim>\<open>click\<close> on the trigger and on the list, and
  \<^verbatim>\<open>focus blur keyup disable\<close> on the native select and on the wrapper. The trigger and
  the list are siblings inside the wrapper and the select stands outside it, so an event
  reaches at most one bound handler.
\<close>

datatype bound = on_trigger | on_list | on_selectElement | on_wrapper

definition dispatch :: "bound \<Rightarrow> jq_event \<Rightarrow> custom_select \<Rightarrow> (custom_select \<times> outcome) option" where
  "dispatch b e s =
     (case b of
        on_trigger \<Rightarrow> (if etype e = click then Some (toggleCustomSelect s) else None)
      | on_list \<Rightarrow> (if etype e = click then Some (handleCustomListClick e s) else None)
      | on_selectElement \<Rightarrow>
          (if etype e = focus \<or> etype e = blur \<or> etype e = keyup \<or> etype e = disable
           then Some (handleKeyboardSelect e s) else None)
      | on_wrapper \<Rightarrow>
          (if etype e = focus \<or> etype e = blur \<or> etype e = keyup \<or> etype e = disable
           then Some (handleKeyboardSelect e s) else None))"

definition fire :: "bound \<times> jq_event \<Rightarrow> custom_select \<Rightarrow> custom_select" where
  "fire be s = (case dispatch (fst be) (snd be) s of None \<Rightarrow> s | Some r \<Rightarrow> fst r)"

definition run :: "(bound \<times> jq_event) list \<Rightarrow> custom_select \<Rightarrow> custom_select" where
  "run evs s = fold fire evs s"

subsection \<open>Invariants and sample inputs\<close>



text \<open>A key released on the wrapper, and a click inside the list.\<close>

definition key :: "int \<Rightarrow> jq_event" where
  "key k = \<lparr>etype = keyup, keyCode = k, target = other_node\<rparr>"

definition click_on :: "node \<Rightarrow> jq_event" where
  "click_on t = \<lparr>etype = click, keyCode = 0, target = t\<rparr>"

text \<open>A select with the options Apple, Banana (selected) and Cherry, and the widget the
  constructor builds from it.\<close>

definition fruit_select :: select_el where
  "fruit_select =
     \<lparr>sel_disabled = False, sel_classes = {},
      sel_children = [\<lparr>opt_value = ''a'', opt_text = ''Apple'', opt_selected = False\<rparr>,
                      \<lparr>opt_value = ''b'', opt_text = ''Banana'', opt_selected = True\<rparr>,
                      \<lparr>opt_value = ''c'', opt_text = ''Cherry'', opt_selected = False\<rparr>],
      sel_val = Some ''b''\<rparr>"

definition fruit_widget :: custom_select where
  "fruit_widget = CustomSelect fruit_select"

text \<open>The same widget after a click on its trigger: expanded.\<close>

definition open_fruit_widget :: custom_select where
  "open_fruit_widget = run [(on_trigger, click_on other_node)] fruit_widget"



section \<open>Properties\<close>

subsection \<open>Frame lemmas\<close>

lemma length_map_items [simp]: "length (map_items f lis) = length lis"
  by (simp add: map_items_def)

lemma nth_map_items [simp]: "i < length lis \<Longrightarrow> map_items f lis ! i = f i (lis ! i)"
  by (simp add: map_items_def nth_enumerate_eq)

lemma addClass_li_fields [simp]:
  "map button_data_value (addClass_li c sel lis) = map button_data_value lis"
  "map button_text (addClass_li c sel lis) = map button_text lis"
  "length (addClass_li c sel lis) = length lis"
  by (simp_all add: addClass_li_def list_eq_iff_nth_eq)

lemma removeClass_li_fields [simp]:
  "map button_data_value (removeClass_li c sel lis) = map button_data_value lis"
  "map button_text (removeClass_li c sel lis) = map button_text lis"
  "length (removeClass_li c sel lis) = length lis"
  by (simp_all add: removeClass_li_def list_eq_iff_nth_eq)

lemma nth_addClass_li [simp]:
  "i < length lis \<Longrightarrow> addClass_li c sel lis ! i =
     (if i \<in> set sel then (lis ! i)\<lparr>li_classes := insert c (li_classes (lis ! i))\<rparr> else lis ! i)"
  by (simp add: addClass_li_def)

lemma nth_removeClass_li [simp]:
  "i < length lis \<Longrightarrow> removeClass_li c sel lis ! i =
     (if i \<in> set sel then (lis ! i)\<lparr>li_classes := li_classes (lis ! i) - {c}\<rparr> else lis ! i)"
  by (simp add: removeClass_li_def)

lemma changeSelectItem_frame [simp]:
  "wrapper (changeSelectItem sel s) = wrapper s"
  "expanded (changeSelectItem sel s) = expanded s"
  "disabled (changeSelectItem sel s) = disabled s"
  "list_ul (changeSelectItem sel s) = list_ul s"
  "trigger (changeSelectItem sel s) = trigger s"
  "listOfOptions (changeSelectItem sel s) = listOfOptions s"
  by (simp_all add: changeSelectItem_def changeSelectItem_trace_def Let_def)

text \<open>The functions as the composition of their statements.\<close>

lemma changeSelectElement_eq:
  "changeSelectElement sel s =
     changeSelectItem sel
       (updateTriggerText
          (jq_text (addClass_li selectedClass sel (removeClass_li selectedClass (find_li (list_ul s)) (list_ul s))) sel)
          (s\<lparr>list_ul := addClass_li selectedClass sel (removeClass_li selectedClass (find_li (list_ul s)) (list_ul s))\<rparr>))"
  by (simp add: changeSelectElement_def changeSelectElement_trace_def changeSelectItem_def
      changeSelectItem_trace_def Let_def)

lemma handleCustomListClick_eq:
  "fst (handleCustomListClick e s) =
     (if disabled s \<or> \<not> is_button (target e) then s
      else changeSelectElement (target_buttons (list_ul s) (target e)) (fst (toggleCustomSelect s)))"
  by (simp add: handleCustomListClick_def handleCustomListClick_trace_def changeSelectElement_def
      Let_def toggleCustomSelect_def openCustomSelect_def closeCustomSelect_def)

lemma handleKeyboardInput_eq:
  "handleKeyboardInput e s =
     (let selection = jq_index (find_selectedEl (list_ul s));
          sel = jq_eq selection (find_li (list_ul s));
          nxt = (if keyCode e = 38 \<or> keyCode e = 37 then jq_prev sel
                 else if keyCode e = 40 \<or> keyCode e = 39 then jq_next (list_ul s) sel else [])
      in if nxt = [] then s
         else changeSelectItem
                (find_selectedEl (removeClass_li selectedClass sel (addClass_li selectedClass nxt (list_ul s))))
                (s\<lparr>list_ul := removeClass_li selectedClass sel (addClass_li selectedClass nxt (list_ul s)),
                   trigger := jq_text (addClass_li selectedClass nxt (list_ul s)) nxt\<rparr>))"
  by (simp add: handleKeyboardInput_def handleKeyboardInput_trace_def changeSelectItem_def
      changeSelectItem_trace_def updateTriggerText_def find_li_def Let_def)

lemma changeSelectElement_frame [simp]:
  "wrapper (changeSelectElement sel s) = wrapper s"
  "expanded (changeSelectElement sel s) = expanded s"
  "disabled (changeSelectElement sel s) = disabled s"
  "listOfOptions (changeSelectElement sel s) = listOfOptions s"
  by (simp_all add: changeSelectElement_eq updateTriggerText_def)

lemma handleKeyboardInput_frame [simp]:
  "wrapper (handleKeyboardInput e s) = wrapper s"
  "expanded (handleKeyboardInput e s) = expanded s"
  "disabled (handleKeyboardInput e s) = disabled s"
  "listOfOptions (handleKeyboardInput e s) = listOfOptions s"
  by (simp_all add: handleKeyboardInput_eq Let_def)

lemma createCustomSelect_each_frame [simp]:
  "wrapper (createCustomSelect_each opts s) = wrapper s"
  "expanded (createCustomSelect_each opts s) = expanded s"
  "disabled (createCustomSelect_each opts s) = disabled s"
  "selectElement (createCustomSelect_each opts s) = selectElement s"
  by (induction opts arbitrary: s) (simp_all add: Let_def updateTriggerText_def)

subsection \<open>The native select after a commit\<close>

lemma changeSelectItem_native:
  "selectElement (changeSelectItem sel s) =
     (selectElement s)
       \<lparr>sel_children :=
          map (\<lambda>opt. opt\<lparr>opt_selected := (opt_value opt = selector_text (jq_data_value (list_ul s) sel))\<rparr>)
            (sel_children (selectElement s)),
        sel_val :=
          (if val_text (jq_data_value (list_ul s) sel) \<in> set (map opt_value (sel_children (selectElement s)))
           then Some (val_text (jq_data_value (list_ul s) sel)) else None)\<rparr>"
proof -
  have c: "(\<lambda>opt. if opt_value opt = x then opt\<lparr>opt_selected := True\<rparr> else opt) \<circ> opt_selected_update (\<lambda>_. False)
           = (\<lambda>opt. opt\<lparr>opt_selected := (opt_value opt = x)\<rparr>)" for x
    by (rule ext) simp
  have m: "opt_value \<circ> (\<lambda>opt. if opt_value opt = x then opt\<lparr>opt_selected := True\<rparr> else opt)
             \<circ> opt_selected_update (\<lambda>_. False) = opt_value" for x
    by (rule ext) simp
  show ?thesis
    by (simp add: changeSelectItem_def changeSelectItem_trace_def Let_def attr_selected_false_def
        attr_selected_true_def set_val_def c m del: set_map)
qed


lemma changeSelectItem_values [simp]:
  "map opt_value (sel_children (selectElement (changeSelectItem sel s)))
     = map opt_value (sel_children (selectElement s))"
  by (simp add: changeSelectItem_native comp_def)

lemma changeSelectElement_values [simp]:
  "map opt_value (sel_children (selectElement (changeSelectElement sel s)))
     = map opt_value (sel_children (selectElement s))"
  "map button_data_value (list_ul (changeSelectElement sel s)) = map button_data_value (list_ul s)"
  "map button_text (list_ul (changeSelectElement sel s)) = map button_text (list_ul s)"
  by (simp_all add: changeSelectElement_eq updateTriggerText_def)

lemma handleKeyboardInput_values [simp]:
  "map opt_value (sel_children (selectElement (handleKeyboardInput e s)))
     = map opt_value (sel_children (selectElement s))"
  "map button_data_value (list_ul (handleKeyboardInput e s)) = map button_data_value (list_ul s)"
  by (simp_all add: handleKeyboardInput_eq Let_def)

subsection \<open>Construction\<close>



subsection \<open>Invariants of every run\<close>







lemma run_disabled: "disabled s \<Longrightarrow> run evs s = s"
proof (induction evs)
  case Nil
  then show ?case by (simp add: run_def)
next
  case (Cons be evs)
  have "fire be s = s"
    using Cons.prems
    by (cases "fst be")
       (simp_all add: fire_def dispatch_def toggleCustomSelect_def handleCustomListClick_def
          handleKeyboardSelect_def)
  with Cons show ?case by (simp add: run_def)
qed

subsection \<open>Keyboard navigation at the ends of the list\<close>







subsection \<open>Selecting the same option again\<close>

lemma changeSelectItem_explicit:
  "changeSelectItem sel s =
     s\<lparr>selectElement := (selectElement s)
       \<lparr>sel_children :=
          map (\<lambda>opt. opt\<lparr>opt_selected := (opt_value opt = selector_text (jq_data_value (list_ul s) sel))\<rparr>)
            (sel_children (selectElement s)),
        sel_val :=
          (if val_text (jq_data_value (list_ul s) sel) \<in> set (map opt_value (sel_children (selectElement s)))
           then Some (val_text (jq_data_value (list_ul s) sel)) else None)\<rparr>\<rparr>"
proof -
  have "changeSelectItem sel s = s\<lparr>selectElement := selectElement (changeSelectItem sel s)\<rparr>"
    by (simp add: changeSelectItem_def changeSelectItem_trace_def Let_def)
  then show ?thesis
    by (simp only: changeSelectItem_native)
qed

lemma reselect_list:
  assumes "i < length lis"
  shows "addClass_li selectedClass [i]
           (removeClass_li selectedClass (find_li (addClass_li selectedClass [i] (removeClass_li selectedClass (find_li lis) lis)))
              (addClass_li selectedClass [i] (removeClass_li selectedClass (find_li lis) lis)))
         = addClass_li selectedClass [i] (removeClass_li selectedClass (find_li lis) lis)"
  by (rule nth_equalityI) (simp_all add: find_li_def)

lemma commit_twice:
  "map (\<lambda>opt. opt\<lparr>opt_selected := (opt_value opt = v)\<rparr>)
     (map (\<lambda>opt. opt\<lparr>opt_selected := (opt_value opt = v)\<rparr>) xs)
   = map (\<lambda>opt. opt\<lparr>opt_selected := (opt_value opt = v)\<rparr>) xs"
  "map opt_value (map (\<lambda>opt. opt\<lparr>opt_selected := (opt_value opt = v)\<rparr>) xs) = map opt_value xs"
  by (induction xs) simp_all

lemma changeSelectElement_explicit:
  assumes "i < length (list_ul s)"
  shows "changeSelectElement [i] s =
     s\<lparr>list_ul := addClass_li selectedClass [i] (removeClass_li selectedClass (find_li (list_ul s)) (list_ul s)),
       trigger := button_text (list_ul s ! i),
       selectElement := (selectElement s)
         \<lparr>sel_children :=
            map (\<lambda>opt. opt\<lparr>opt_selected := (opt_value opt = button_data_value (list_ul s ! i))\<rparr>)
              (sel_children (selectElement s)),
          sel_val :=
            (if button_data_value (list_ul s ! i) \<in> set (map opt_value (sel_children (selectElement s)))
             then Some (button_data_value (list_ul s ! i)) else None)\<rparr>\<rparr>"
  using assms
  by (simp add: changeSelectElement_eq updateTriggerText_def changeSelectItem_explicit jq_data_value_def
      jq_text_def selector_text_def val_text_def find_li_def del: set_map)

lemma changeSelectElement_idem:
  assumes "i < length (list_ul s)"
  shows "changeSelectElement [i] (changeSelectElement [i] s) = changeSelectElement [i] s"
proof -
  let ?L = "addClass_li selectedClass [i] (removeClass_li selectedClass (find_li (list_ul s)) (list_ul s))"
  have l: "list_ul (changeSelectElement [i] s) = ?L"
    by (simp add: changeSelectElement_explicit [OF assms])
  have i': "i < length (list_ul (changeSelectElement [i] s))"
    using assms by (simp add: l)
  have d: "button_data_value (?L ! i) = button_data_value (list_ul s ! i)"
    and x: "button_text (?L ! i) = button_text (list_ul s ! i)"
    using assms by simp_all
  show ?thesis
    apply (subst changeSelectElement_explicit [OF i'])
    apply (simp only: l d x reselect_list [OF assms])
    apply (simp add: changeSelectElement_explicit [OF assms] commit_twice del: set_map map_map)
    done
qed

lemma toggleCustomSelect_update:
  "\<not> disabled s \<Longrightarrow>
     fst (toggleCustomSelect s) =
       s\<lparr>wrapper := (if expanded s then wrapper s - {expandedClass} else insert expandedClass (wrapper s)),
         expanded := \<not> expanded s\<rparr>"
  by (simp add: toggleCustomSelect_def openCustomSelect_def closeCustomSelect_def)

lemma changeSelectElement_wrapper_update:
  "i < length (list_ul s) \<Longrightarrow>
     changeSelectElement [i] (s\<lparr>wrapper := w, expanded := b\<rparr>)
       = (changeSelectElement [i] s)\<lparr>wrapper := w, expanded := b\<rparr>"
  by (simp add: changeSelectElement_explicit del: set_map map_map)


subsection \<open>The scenarios of the specification\<close>

text \<open>
  With Banana selected, the key Down selects Cherry in the list, the trigger and the native
  select and leaves the widget closed; a second key Down changes nothing.
\<close>

lemma scenario_key_down:
  "find_selectedEl (list_ul (run [(on_wrapper, key 40)] fruit_widget)) = [2]
   \<and> trigger (run [(on_wrapper, key 40)] fruit_widget) = ''Cherry''
   \<and> sel_val (selectElement (run [(on_wrapper, key 40)] fruit_widget)) = Some ''c''
   \<and> \<not> expanded (run [(on_wrapper, key 40)] fruit_widget)
   \<and> run [(on_wrapper, key 40), (on_wrapper, key 40)] fruit_widget
       = run [(on_wrapper, key 40)] fruit_widget"
  by code_simp

text \<open>A click on Apple in the expanded widget selects Apple everywhere and closes the widget.\<close>

lemma scenario_click_apple:
  "find_selectedEl (list_ul (run [(on_list, click_on (option_button 0))] open_fruit_widget)) = [0]
   \<and> trigger (run [(on_list, click_on (option_button 0))] open_fruit_widget) = ''Apple''
   \<and> sel_val (selectElement (run [(on_list, click_on (option_button 0))] open_fruit_widget)) = Some ''a''
   \<and> \<not> expanded (run [(on_list, click_on (option_button 0))] open_fruit_widget)"
  by code_simp

section \<open>The claims\<close>



text \<open>
  C2 as stated fails: a click on the option Apple of the enabled, closed widget selects
  Apple and leaves the widget open.
\<close>

theorem pointer_select_on_closed_widget_opens:
  "\<not> disabled fruit_widget \<and> \<not> expanded fruit_widget
   \<and> sel_val (selectElement (fst (handleCustomListClick (click_on (option_button 0)) fruit_widget))) = Some ''a''
   \<and> expanded (fst (handleCustomListClick (click_on (option_button 0)) fruit_widget))"
  by code_simp

text \<open>
  C2 (as the code has it). A click on an option button of an enabled widget toggles the
  expansion state: flag and class end closed exactly when the widget was open before the
  click. A keyboard or focus event leaves the expansion state as it was.
\<close>

theorem pointer_select_toggles_expansion:
  "(\<not> disabled s \<and> is_button (target e) \<longrightarrow>
      expanded (fst (handleCustomListClick e s)) = (\<not> expanded s)
      \<and> (expandedClass \<in> wrapper (fst (handleCustomListClick e s))) = (\<not> expanded s))
   \<and> expanded (fst (handleKeyboardSelect e' s)) = expanded s
   \<and> (expandedClass \<in> wrapper (fst (handleKeyboardSelect e' s))) = (expandedClass \<in> wrapper s)"
proof -
  have ks: "expanded (fst (handleKeyboardSelect e' s)) = expanded s
     \<and> (expandedClass \<in> wrapper (fst (handleKeyboardSelect e' s))) = (expandedClass \<in> wrapper s)"
    by (cases "etype e'") (simp_all add: handleKeyboardSelect_def)
  show ?thesis
    using ks
    by (simp add: handleCustomListClick_eq toggleCustomSelect_def openCustomSelect_def closeCustomSelect_def)
qed

theorem pointer_select_toggles_expansion_witness:
  "\<not> disabled open_fruit_widget \<and> is_button (target (click_on (option_button 0)))
   \<and> expanded open_fruit_widget
   \<and> \<not> expanded (fst (handleCustomListClick (click_on (option_button 0)) open_fruit_widget))
   \<and> expandedClass \<notin> wrapper (fst (handleCustomListClick (click_on (option_button 0)) open_fruit_widget))
   \<and> expanded (fst (handleKeyboardSelect (key 40) open_fruit_widget))"
proof -
  have h: "\<not> disabled open_fruit_widget" "is_button (target (click_on (option_button 0)))"
    "expanded open_fruit_widget"
    by code_simp+
  show ?thesis
    using pointer_select_toggles_expansion [of open_fruit_widget "click_on (option_button 0)" "key 40"] h
    by simp
qed




text \<open>
  C4 as stated fails: the enabled, open widget is still open after a blur event.
\<close>

theorem blur_keeps_widget_open:
  "\<not> disabled open_fruit_widget \<and> expanded open_fruit_widget
   \<and> expanded (fst (handleKeyboardSelect \<lparr>etype = blur, keyCode = 0, target = other_node\<rparr> open_fruit_widget))
   \<and> expandedClass \<in> wrapper (fst (handleKeyboardSelect \<lparr>etype = blur, keyCode = 0, target = other_node\<rparr> open_fruit_widget))"
  by code_simp

text \<open>
  C4 (as the code has it). On an enabled widget a blur event removes the focus class from
  the wrapper and changes nothing else: the expansion state stays as it was.
\<close>

theorem blur_only_clears_focus:
  "\<not> disabled s \<Longrightarrow> etype e = blur \<Longrightarrow>
     fst (handleKeyboardSelect e s) = s\<lparr>wrapper := wrapper s - {focusClass}\<rparr>
     \<and> focusClass \<notin> wrapper (fst (handleKeyboardSelect e s))
     \<and> expanded (fst (handleKeyboardSelect e s)) = expanded s
     \<and> (expandedClass \<in> wrapper (fst (handleKeyboardSelect e s))) = (expandedClass \<in> wrapper s)"
  by (simp add: handleKeyboardSelect_def)

theorem blur_only_clears_focus_witness:
  "\<not> disabled (fire (on_wrapper, \<lparr>etype = focus, keyCode = 0, target = other_node\<rparr>) open_fruit_widget)
   \<and> focusClass \<in> wrapper (fire (on_wrapper, \<lparr>etype = focus, keyCode = 0, target = other_node\<rparr>) open_fruit_widget)
   \<and> focusClass \<notin> wrapper (fst (handleKeyboardSelect \<lparr>etype = blur, keyCode = 0, target = other_node\<rparr>
         (fire (on_wrapper, \<lparr>etype = focus, keyCode = 0, target = other_node\<rparr>) open_fruit_widget)))
   \<and> expanded (fst (handleKeyboardSelect \<lparr>etype = blur, keyCode = 0, target = other_node\<rparr>
         (fire (on_wrapper, \<lparr>etype = focus, keyCode = 0, target = other_node\<rparr>) open_fruit_widget)))"
proof -
  have h: "\<not> disabled (fire (on_wrapper, \<lparr>etype = focus, keyCode = 0, target = other_node\<rparr>) open_fruit_widget)"
    "focusClass \<in> wrapper (fire (on_wrapper, \<lparr>etype = focus, keyCode = 0, target = other_node\<rparr>) open_fruit_widget)"
    "expanded (fire (on_wrapper, \<lparr>etype = focus, keyCode = 0, target = other_node\<rparr>) open_fruit_widget)"
    by code_simp+
  show ?thesis
    using blur_only_clears_focus [OF h(1), of "\<lparr>etype = blur, keyCode = 0, target = other_node\<rparr>"] h
    by simp
qed



text \<open>
  C6. Once the widget is disabled, a click in the list (select), a keyboard or focus event
  (selectRelative), a toggle, and any sequence of events leave the whole state as it is:
  the flags, the list, the trigger and the native select.
\<close>

theorem disabled_blocks_every_operation:
  "disabled s \<Longrightarrow>
     fst (handleCustomListClick e s) = s
     \<and> fst (handleKeyboardSelect e s) = s
     \<and> fst (toggleCustomSelect s) = s
     \<and> run evs s = s"
  by (simp add: run_disabled toggleCustomSelect_def handleCustomListClick_def handleKeyboardSelect_def)

theorem disabled_blocks_every_operation_witness:
  "disabled (fire (on_wrapper, \<lparr>etype = disable, keyCode = 0, target = other_node\<rparr>) fruit_widget)
   \<and> fst (handleCustomListClick (click_on (option_button 0))
         (fire (on_wrapper, \<lparr>etype = disable, keyCode = 0, target = other_node\<rparr>) fruit_widget))
       = fire (on_wrapper, \<lparr>etype = disable, keyCode = 0, target = other_node\<rparr>) fruit_widget
   \<and> fst (handleKeyboardSelect (key 40)
         (fire (on_wrapper, \<lparr>etype = disable, keyCode = 0, target = other_node\<rparr>) fruit_widget))
       = fire (on_wrapper, \<lparr>etype = disable, keyCode = 0, target = other_node\<rparr>) fruit_widget
   \<and> fst (toggleCustomSelect
         (fire (on_wrapper, \<lparr>etype = disable, keyCode = 0, target = other_node\<rparr>) fruit_widget))
       = fire (on_wrapper, \<lparr>etype = disable, keyCode = 0, target = other_node\<rparr>) fruit_widget
   \<and> run [(on_trigger, click_on other_node), (on_list, click_on (option_button 0)), (on_selectElement, key 38)]
         (fire (on_wrapper, \<lparr>etype = disable, keyCode = 0, target = other_node\<rparr>) fruit_widget)
       = fire (on_wrapper, \<lparr>etype = disable, keyCode = 0, target = other_node\<rparr>) fruit_widget"
proof -
  have h: "disabled (fire (on_wrapper, \<lparr>etype = disable, keyCode = 0, target = other_node\<rparr>) fruit_widget)"
    by code_simp
  show ?thesis
    using disabled_blocks_every_operation [OF h] h by simp
qed



text \<open>
  C8 as stated fails: one click on Apple in the open widget closes it, a second click on
  Apple opens it again, so the states after one and after two clicks differ.
\<close>

theorem second_pointer_select_reopens:
  "\<not> disabled open_fruit_widget
   \<and> \<not> expanded (fst (handleCustomListClick (click_on (option_button 0)) open_fruit_widget))
   \<and> expanded (fst (handleCustomListClick (click_on (option_button 0))
        (fst (handleCustomListClick (click_on (option_button 0)) open_fruit_widget))))"
  by code_simp

text \<open>
  C8 (as the code has it). For a valid position, \<open>changeSelectElement\<close> applied twice gives
  the state it gives applied once. A second click on the same option button of an enabled
  widget changes nothing but the expansion state, which it toggles again.
\<close>

theorem select_idempotent_up_to_toggle:
  "(i < length (list_ul s) \<longrightarrow>
      changeSelectElement [i] (changeSelectElement [i] s) = changeSelectElement [i] s)
   \<and> (\<not> disabled s \<and> i < length (list_ul s) \<longrightarrow>
        fst (handleCustomListClick (click_on (option_button i))
               (fst (handleCustomListClick (click_on (option_button i)) s)))
          = fst (toggleCustomSelect (fst (handleCustomListClick (click_on (option_button i)) s))))"
proof -
  have twice: "fst (handleCustomListClick (click_on (option_button i))
               (fst (handleCustomListClick (click_on (option_button i)) s)))
          = fst (toggleCustomSelect (fst (handleCustomListClick (click_on (option_button i)) s)))"
    if d: "\<not> disabled s" and i: "i < length (list_ul s)"
  proof -
    define s0 where "s0 = fst (toggleCustomSelect s)"
    define s1 where "s1 = changeSelectElement [i] s0"
    have i0: "i < length (list_ul s0)"
      using i d by (simp add: s0_def toggleCustomSelect_update)
    have c1: "fst (handleCustomListClick (click_on (option_button i)) s) = s1"
      using d i by (simp add: handleCustomListClick_eq click_on_def is_button_def target_buttons_def
          s1_def s0_def)
    have d1: "\<not> disabled s1"
      using d by (simp add: s1_def s0_def toggleCustomSelect_update)
    have i1: "i < length (list_ul s1)"
      using i0 by (simp add: s1_def changeSelectElement_explicit)
    have idem: "changeSelectElement [i] s1 = s1"
      unfolding s1_def by (rule changeSelectElement_idem [OF i0])
    have "fst (handleCustomListClick (click_on (option_button i)) s1)
            = changeSelectElement [i] (fst (toggleCustomSelect s1))"
      using d1 i1 by (simp add: handleCustomListClick_eq click_on_def is_button_def target_buttons_def)
    also have "\<dots> = fst (toggleCustomSelect s1)"
      using i1 idem by (simp add: toggleCustomSelect_update [OF d1] changeSelectElement_wrapper_update)
    finally show ?thesis
      by (simp add: c1)
  qed
  show ?thesis
    using twice changeSelectElement_idem [of i s] by blast
qed

theorem select_idempotent_up_to_toggle_witness:
  "\<not> disabled open_fruit_widget \<and> 0 < length (list_ul open_fruit_widget)
   \<and> changeSelectElement [0] (changeSelectElement [0] open_fruit_widget)
       = changeSelectElement [0] open_fruit_widget
   \<and> fst (handleCustomListClick (click_on (option_button 0))
            (fst (handleCustomListClick (click_on (option_button 0)) open_fruit_widget)))
       = fst (toggleCustomSelect (fst (handleCustomListClick (click_on (option_button 0)) open_fruit_widget)))"
proof -
  have h: "\<not> disabled open_fruit_widget" "0 < length (list_ul open_fruit_widget)"
    by code_simp+
  show ?thesis
    using select_idempotent_up_to_toggle [of 0 open_fruit_widget] h by simp
qed

text \<open>
  C9. The handlers of the list and of the keyboard and focus events always suppress the
  default action. \<open>toggleCustomSelect\<close>, the handler of a click on the trigger, suppresses
  it only when the widget is disabled: a click on the trigger of the enabled sample widget
  keeps its default action.
\<close>

theorem trigger_click_keeps_default_action:
  "default_suppressed (snd (handleCustomListClick e s))
   \<and> default_suppressed (snd (handleKeyboardSelect e s))
   \<and> default_suppressed (snd (toggleCustomSelect s)) = disabled s
   \<and> dispatch on_trigger (click_on other_node) fruit_widget = Some (toggleCustomSelect fruit_widget)
   \<and> \<not> default_suppressed (snd (toggleCustomSelect fruit_widget))"
proof -
  have "\<not> disabled fruit_widget" by code_simp
  then show ?thesis
    by (simp add: default_suppressed_def handleCustomListClick_def handleKeyboardSelect_def
        toggleCustomSelect_def dispatch_def click_on_def)
qed


end
